theory Spec2Isabelle
  imports Main "HOL-Library.AList"
begin

section \<open>The calendar manager of Calendar-Imp.py\<close>

text \<open>
  The program keeps, in memory, a directory (\<open>CalendarsApp\<close>) of users, each user a
  dictionary of named calendars, each calendar an ordered list of events. Every method
  of the four classes is embedded below as a function that takes the receiver's state
  and returns the method's result together with the state it leaves behind.

  \<^item> A Python \<open>dict\<close> is an association list in insertion order: \<open>k in d\<close> is
    membership of \<open>k\<close> among the keys, \<open>d.get(k)\<close> is \<open>map_of\<close>, \<open>d[k] = v\<close> is
    \<open>AList.update\<close> (an existing key keeps its position, a new key goes to the end) and
    \<open>d.pop(k, None)\<close> hands back \<open>map_of d k\<close> and leaves \<open>AList.delete k d\<close>.
  \<^item> Users and calendars are only ever reached through the dictionary that owns them,
    and no method stores one object in two places, so they are held by value.
  \<^item> Events are different: \<open>Calendar.add_event\<close> is handed an \<open>Event\<close> object built
    by its caller, so one object may sit at several positions of a list (or in several
    calendars), and \<open>Calendar.update_event\<close> writes to the object in place. Events
    therefore live in a heap, and a calendar holds references.
\<close>

subsection \<open>Errors\<close>

datatype error = KeyError | IndexError | NotImplementedError

subsection \<open>Event\<close>

text \<open>A parsed \<open>datetime\<close>: year, month, day, hour, minute.\<close>

datatype datetime = Datetime nat nat nat nat nat

record Event =
  title :: string
  start_time :: datetime
  end_time :: datetime
  description :: string

text \<open>\<open>Event.__init__(title, start_time, end_time, description="")\<close>.\<close>

definition Event_init :: "string \<Rightarrow> datetime \<Rightarrow> datetime \<Rightarrow> string option \<Rightarrow> Event" where
  "Event_init t s e d =
     \<lparr>title = t, start_time = s, end_time = e,
      description = (case d of None \<Rightarrow> [] | Some v \<Rightarrow> v)\<rparr>"

text \<open>
  \<open>Event.update_event(title=None, start_time=None, end_time=None, description=None)\<close>:
  four tests \<open>is not None\<close> in a row, each followed by one assignment. A keyword
  that is left out and one that is passed as \<open>None\<close> are the same call.
\<close>

definition Event_update_event ::
  "Event \<Rightarrow> string option \<Rightarrow> datetime option \<Rightarrow> datetime option \<Rightarrow> string option \<Rightarrow> Event" where
  "Event_update_event self t s e d =
     (let self1 = (case t of None \<Rightarrow> self | Some v \<Rightarrow> self\<lparr>title := v\<rparr>);
          self2 = (case s of None \<Rightarrow> self1 | Some v \<Rightarrow> self1\<lparr>start_time := v\<rparr>);
          self3 = (case e of None \<Rightarrow> self2 | Some v \<Rightarrow> self2\<lparr>end_time := v\<rparr>);
          self4 = (case d of None \<Rightarrow> self3 | Some v \<Rightarrow> self3\<lparr>description := v\<rparr>)
      in self4)"

text \<open>\<open>Event.matches_title\<close>: \<open>self.title == title\<close>.\<close>

definition matches_title :: "Event \<Rightarrow> string \<Rightarrow> bool" where
  "matches_title self t = (title self = t)"

subsection \<open>The heap of events\<close>

type_synonym ref = nat

text \<open>
  Every reference denotes an object; \<open>next_ref\<close> is the first reference that no
  constructor call has handed out yet.
\<close>

record heap =
  cells :: "ref \<Rightarrow> Event"
  next_ref :: ref

definition deref :: "heap \<Rightarrow> ref \<Rightarrow> Event" where
  "deref h r = cells h r"

definition assign :: "heap \<Rightarrow> ref \<Rightarrow> Event \<Rightarrow> heap" where
  "assign h r e = h\<lparr>cells := (cells h)(r := e)\<rparr>"

definition new_object :: "heap \<Rightarrow> Event \<Rightarrow> ref \<times> heap" where
  "new_object h e = (next_ref h, h\<lparr>cells := (cells h)(next_ref h := e), next_ref := Suc (next_ref h)\<rparr>)"

subsection \<open>EventFactory\<close>

datatype EventFactory = EventFactory | DefaultEventFactory

text \<open>
  \<open>create_event\<close>: the base class raises \<open>NotImplementedError\<close>, the default factory
  constructs an \<open>Event\<close>.
\<close>

fun create_event ::
  "EventFactory \<Rightarrow> heap \<Rightarrow> string \<Rightarrow> datetime \<Rightarrow> datetime \<Rightarrow> string option \<Rightarrow> error + (ref \<times> heap)" where
  "create_event EventFactory h t s e d = Inl NotImplementedError"
| "create_event DefaultEventFactory h t s e d =
     Inr (new_object h (Event_init t s e (Some (case d of None \<Rightarrow> [] | Some v \<Rightarrow> v))))"

subsection \<open>Calendar\<close>

record Calendar =
  name :: string
  events :: "ref list"
  event_factory :: EventFactory

text \<open>\<open>Calendar.__init__(name, event_factory=None)\<close>.\<close>

definition Calendar_init :: "string \<Rightarrow> EventFactory option \<Rightarrow> Calendar" where
  "Calendar_init n f =
     \<lparr>name = n, events = [],
      event_factory = (case f of Some g \<Rightarrow> g | None \<Rightarrow> DefaultEventFactory)\<rparr>"

text \<open>\<open>Calendar.add_event\<close>: \<open>self.events.append(event)\<close>.\<close>

definition add_event :: "Calendar \<Rightarrow> ref \<Rightarrow> Calendar" where
  "add_event self event = self\<lparr>events := events self @ [event]\<rparr>"

text \<open>\<open>del xs[i]\<close>: raises \<open>IndexError\<close> when \<open>i\<close> is not an index of \<open>xs\<close>.\<close>

definition del_item :: "nat \<Rightarrow> 'a list \<Rightarrow> error + 'a list" where
  "del_item i xs = (if i < length xs then Inr (take i xs @ drop (Suc i) xs) else Inl IndexError)"

text \<open>
  \<open>Calendar.remove_event\<close>: the loop \<open>for i, evt in enumerate(self.events)\<close>, leaving
  at the first event whose title matches; the second argument is \<open>self.events\<close>, the
  third what is left of the enumeration.
\<close>

fun remove_event_loop ::
  "heap \<Rightarrow> ref list \<Rightarrow> (nat \<times> ref) list \<Rightarrow> string \<Rightarrow> error + (bool \<times> ref list)" where
  "remove_event_loop h evs [] event_title = Inr (False, evs)"
| "remove_event_loop h evs ((i, evt) # rest) event_title =
     (if matches_title (deref h evt) event_title
      then (case del_item i evs of Inl err \<Rightarrow> Inl err | Inr evs' \<Rightarrow> Inr (True, evs'))
      else remove_event_loop h evs rest event_title)"

definition remove_event :: "heap \<Rightarrow> Calendar \<Rightarrow> string \<Rightarrow> error + (bool \<times> Calendar)" where
  "remove_event h self event_title =
     (case remove_event_loop h (events self) (enumerate 0 (events self)) event_title of
        Inl err \<Rightarrow> Inl err
      | Inr (b, evs') \<Rightarrow> Inr (b, self\<lparr>events := evs'\<rparr>))"

text \<open>
  The keyword arguments \<open>**update_fields\<close> of \<open>Calendar.update_event\<close>, which it hands
  on to \<open>Event.update_event\<close>. Only the four keywords that method accepts are
  representable: Python rejects any other keyword with a \<open>TypeError\<close> when it binds the
  arguments, before the method's body runs.
\<close>

record update_fields =
  kw_title :: "string option"
  kw_start_time :: "datetime option"
  kw_end_time :: "datetime option"
  kw_description :: "string option"

text \<open>
  \<open>Calendar.update_event\<close>: the loop \<open>for evt in self.events\<close>; the first event whose
  title matches is updated in place, and the loop is left.
\<close>

fun update_event_loop :: "heap \<Rightarrow> ref list \<Rightarrow> string \<Rightarrow> update_fields \<Rightarrow> bool \<times> heap" where
  "update_event_loop h [] event_title kw = (False, h)"
| "update_event_loop h (evt # rest) event_title kw =
     (if matches_title (deref h evt) event_title
      then (True, assign h evt
              (Event_update_event (deref h evt)
                 (kw_title kw) (kw_start_time kw) (kw_end_time kw) (kw_description kw)))
      else update_event_loop h rest event_title kw)"

definition Calendar_update_event ::
  "heap \<Rightarrow> Calendar \<Rightarrow> string \<Rightarrow> update_fields \<Rightarrow> bool \<times> heap" where
  "Calendar_update_event h self event_title kw = update_event_loop h (events self) event_title kw"

subsection \<open>User\<close>

record User =
  username :: string
  calendars :: "(string \<times> Calendar) list"

definition User_init :: "string \<Rightarrow> User" where
  "User_init n = \<lparr>username = n, calendars = []\<rparr>"

text \<open>\<open>User.factory_create_calendar\<close>: \<open>Calendar(calendar_name)\<close>.\<close>

definition factory_create_calendar :: "User \<Rightarrow> string \<Rightarrow> Calendar" where
  "factory_create_calendar self calendar_name = Calendar_init calendar_name None"

definition create_calendar :: "User \<Rightarrow> string \<Rightarrow> bool \<times> User" where
  "create_calendar self calendar_name =
     (if calendar_name \<in> fst ` set (calendars self) then (False, self)
      else (let new_cal = factory_create_calendar self calendar_name
            in (True, self\<lparr>calendars := AList.update calendar_name new_cal (calendars self)\<rparr>)))"

text \<open>\<open>User.remove_calendar\<close>: \<open>self.calendars.pop(calendar_name, None) is not None\<close>.\<close>

definition remove_calendar :: "User \<Rightarrow> string \<Rightarrow> bool \<times> User" where
  "remove_calendar self calendar_name =
     (map_of (calendars self) calendar_name \<noteq> None,
      self\<lparr>calendars := AList.delete calendar_name (calendars self)\<rparr>)"

text \<open>
  \<open>User.update_calendar_name\<close>. \<open>self.calendars.pop(old_name)\<close> has no default and
  raises \<open>KeyError\<close> on a missing key.
\<close>

definition update_calendar_name :: "User \<Rightarrow> string \<Rightarrow> string \<Rightarrow> error + (bool \<times> User)" where
  "update_calendar_name self old_name new_name =
     (if old_name \<notin> fst ` set (calendars self) \<or> new_name \<in> fst ` set (calendars self)
      then Inr (False, self)
      else (case map_of (calendars self) old_name of
              None \<Rightarrow> Inl KeyError
            | Some cal \<Rightarrow>
                Inr (True,
                     self\<lparr>calendars :=
                            AList.update new_name (cal\<lparr>name := new_name\<rparr>)
                              (AList.delete old_name (calendars self))\<rparr>)))"

subsection \<open>CalendarsApp\<close>

record CalendarsApp =
  users :: "(string \<times> User) list"

definition CalendarsApp_init :: CalendarsApp where
  "CalendarsApp_init = \<lparr>users = []\<rparr>"

definition create_user :: "CalendarsApp \<Rightarrow> string \<Rightarrow> bool \<times> CalendarsApp" where
  "create_user self n =
     (if n \<in> fst ` set (users self) then (False, self)
      else (True, self\<lparr>users := AList.update n (User_init n) (users self)\<rparr>))"

definition get_user :: "CalendarsApp \<Rightarrow> string \<Rightarrow> User option" where
  "get_user self n = map_of (users self) n"

text \<open>\<open>CalendarsApp.delete_user\<close>: \<open>self.users.pop(username, None) is not None\<close>.\<close>

definition delete_user :: "CalendarsApp \<Rightarrow> string \<Rightarrow> bool \<times> CalendarsApp" where
  "delete_user self n =
     (map_of (users self) n \<noteq> None, self\<lparr>users := AList.delete n (users self)\<rparr>)"

definition list_users :: "CalendarsApp \<Rightarrow> string list" where
  "list_users self = map fst (users self)"

subsection \<open>Clients: sequences of calls\<close>

text \<open>
  \<open>main\<close> turns the choices "Create User" and "Delete User" into calls of
  \<open>create_user\<close> and \<open>delete_user\<close> on the one \<open>CalendarsApp\<close>. A sequence of such
  calls is a list of \<open>app_call\<close>s; \<open>app_exec\<close> is the directory after the sequence and
  \<open>app_results\<close> the booleans the calls returned.
\<close>

datatype app_call = CreateUser string | DeleteUser string

fun target :: "app_call \<Rightarrow> string" where
  "target (CreateUser n) = n"
| "target (DeleteUser n) = n"

fun is_create :: "app_call \<Rightarrow> bool" where
  "is_create (CreateUser n) = True"
| "is_create (DeleteUser n) = False"

fun app_step :: "CalendarsApp \<Rightarrow> app_call \<Rightarrow> bool \<times> CalendarsApp" where
  "app_step app (CreateUser n) = create_user app n"
| "app_step app (DeleteUser n) = delete_user app n"

fun app_exec :: "CalendarsApp \<Rightarrow> app_call list \<Rightarrow> CalendarsApp" where
  "app_exec app [] = app"
| "app_exec app (c # cs) = app_exec (snd (app_step app c)) cs"

fun app_results :: "CalendarsApp \<Rightarrow> app_call list \<Rightarrow> bool list" where
  "app_results app [] = []"
| "app_results app (c # cs) = fst (app_step app c) # app_results (snd (app_step app c)) cs"

text \<open>
  The calls of a sequence that took effect on the name \<open>n\<close>: those aimed at \<open>n\<close> that
  returned \<open>True\<close>, in the order they were made.
\<close>

definition effective_on :: "string \<Rightarrow> CalendarsApp \<Rightarrow> app_call list \<Rightarrow> app_call list" where
  "effective_on n app cs =
     map fst (filter (\<lambda>(c, ok). ok \<and> target c = n) (zip cs (app_results app cs)))"

text \<open>
  The net effect of a sequence of calls on a set of usernames, read off the calls alone:
  a creation inserts its name, a deletion takes its name out.
\<close>

fun net_names :: "string set \<Rightarrow> app_call list \<Rightarrow> string set" where
  "net_names S [] = S"
| "net_names S (CreateUser n # cs) = net_names (insert n S) cs"
| "net_names S (DeleteUser n # cs) = net_names (S - {n}) cs"

text \<open>
  \<open>user_menu\<close> works on one \<open>User\<close>: it calls the user's own methods directly, and for
  the event operations it first looks the calendar up with
  \<open>user.calendars.get(cal_name)\<close>, does nothing when there is none, and otherwise calls
  the calendar's method on the object the dictionary holds (so the dictionary sees the
  change, at the key's old position). \<open>NewEvent\<close> is the menu's "Add Event": the
  calendar's factory constructs the event, which is then appended. \<open>AddEvent\<close> is a
  caller of \<open>add_event\<close> that passes an event object of its own choice.
\<close>

datatype user_call =
    CreateCalendar string
  | RemoveCalendar string
  | RenameCalendar string string
  | NewEvent string string datetime datetime string
  | AddEvent string ref
  | RemoveEvent string string
  | UpdateEvent string string update_fields

fun user_step :: "heap \<times> User \<Rightarrow> user_call \<Rightarrow> error + (heap \<times> User)" where
  "user_step (h, u) (CreateCalendar n) = Inr (h, snd (create_calendar u n))"
| "user_step (h, u) (RemoveCalendar n) = Inr (h, snd (remove_calendar u n))"
| "user_step (h, u) (RenameCalendar old_name new_name) =
     (case update_calendar_name u old_name new_name of
        Inl err \<Rightarrow> Inl err
      | Inr (ok, u') \<Rightarrow> Inr (h, u'))"
| "user_step (h, u) (NewEvent k t s e d) =
     (case map_of (calendars u) k of
        None \<Rightarrow> Inr (h, u)
      | Some c \<Rightarrow>
          (case create_event (event_factory c) h t s e (Some d) of
             Inl err \<Rightarrow> Inl err
           | Inr (r, h') \<Rightarrow> Inr (h', u\<lparr>calendars := AList.update k (add_event c r) (calendars u)\<rparr>)))"
| "user_step (h, u) (AddEvent k r) =
     (case map_of (calendars u) k of
        None \<Rightarrow> Inr (h, u)
      | Some c \<Rightarrow> Inr (h, u\<lparr>calendars := AList.update k (add_event c r) (calendars u)\<rparr>))"
| "user_step (h, u) (RemoveEvent k t) =
     (case map_of (calendars u) k of
        None \<Rightarrow> Inr (h, u)
      | Some c \<Rightarrow>
          (case remove_event h c t of
             Inl err \<Rightarrow> Inl err
           | Inr (ok, c') \<Rightarrow> Inr (h, u\<lparr>calendars := AList.update k c' (calendars u)\<rparr>)))"
| "user_step (h, u) (UpdateEvent k t kw) =
     (case map_of (calendars u) k of
        None \<Rightarrow> Inr (h, u)
      | Some c \<Rightarrow> Inr (snd (Calendar_update_event h c t kw), u))"

fun user_exec :: "heap \<times> User \<Rightarrow> user_call list \<Rightarrow> error + (heap \<times> User)" where
  "user_exec s [] = Inr s"
| "user_exec s (c # cs) = (case user_step s c of Inl err \<Rightarrow> Inl err | Inr s' \<Rightarrow> user_exec s' cs)"

text \<open>The key of every entry of a user's dictionary is the name its calendar carries.\<close>

definition names_consistent :: "User \<Rightarrow> bool" where
  "names_consistent u = (\<forall>(k, c) \<in> set (calendars u). name c = k)"

text \<open>
  What the methods keep true of a user's dictionary beyond the names: every calendar in
  it was built by \<open>factory_create_calendar\<close>, so its factory is the default one.
\<close>

definition calendars_ok :: "User \<Rightarrow> bool" where
  "calendars_ok u =
     (\<forall>(k, c) \<in> set (calendars u). name c = k \<and> event_factory c = DefaultEventFactory)"

subsection \<open>Example states\<close>

definition standup :: Event where
  "standup = Event_init ''standup'' (Datetime 2024 1 1 9 0) (Datetime 2024 1 1 9 30) None"

definition lunch :: Event where
  "lunch = Event_init ''lunch'' (Datetime 2024 1 1 12 0) (Datetime 2024 1 1 13 0) (Some ''canteen'')"

definition standup2 :: Event where
  "standup2 = Event_init ''standup'' (Datetime 2024 1 2 9 0) (Datetime 2024 1 2 9 30) (Some ''second'')"

text \<open>Three objects: \<open>lunch\<close> at 0, \<open>standup\<close> at 1, \<open>standup2\<close> at 2.\<close>

definition heap3 :: heap where
  "heap3 = \<lparr>cells = (\<lambda>r. if r = 0 then lunch else if r = 1 then standup else standup2),
            next_ref = 3\<rparr>"

definition work :: Calendar where
  "work = \<lparr>name = ''work'', events = [0, 1, 2], event_factory = DefaultEventFactory\<rparr>"

definition alice :: User where
  "alice = \<lparr>username = ''alice'', calendars = [(''work'', work)]\<rparr>"

definition all_fields :: update_fields where
  "all_fields =
     \<lparr>kw_title = Some ''sync'', kw_start_time = Some (Datetime 2024 1 3 10 0),
      kw_end_time = Some (Datetime 2024 1 3 10 30), kw_description = Some ''moved''\<rparr>"

definition only_description :: "string \<Rightarrow> update_fields" where
  "only_description d =
     \<lparr>kw_title = None, kw_start_time = None, kw_end_time = None, kw_description = Some d\<rparr>"

section \<open>Properties\<close>

subsection \<open>Lists, dictionaries and the heap\<close>

lemma first_index:
  assumes "\<exists>x \<in> set xs. P x"
  shows "\<exists>i<length xs. P (xs ! i) \<and> (\<forall>j<i. \<not> P (xs ! j))"
proof -
  from assms obtain m where m: "m < length xs \<and> P (xs ! m)"
    by (auto simp: in_set_conv_nth)
  define i where "i = (LEAST m. m < length xs \<and> P (xs ! m))"
  have i: "i < length xs \<and> P (xs ! i)"
    unfolding i_def using m by (rule LeastI)
  have "\<forall>j<i. \<not> P (xs ! j)"
  proof (intro allI impI)
    fix j assume "j < i"
    then have "\<not> (j < length xs \<and> P (xs ! j))"
      unfolding i_def by (rule not_less_Least)
    with \<open>j < i\<close> i show "\<not> P (xs ! j)" by simp
  qed
  with i show ?thesis by blast
qed

lemma set_update_subset: "set (AList.update k v al) \<subseteq> insert (k, v) (set al)"
  by (induction al) auto

lemma set_delete_subset: "set (AList.delete k al) \<subseteq> set al"
  by (auto simp: AList.delete_eq)

lemma assign_deref_same: "assign h r (deref h r) = h"
  by (simp add: assign_def deref_def)

lemma deref_assign: "deref (assign h r e) r' = (if r' = r then e else deref h r')"
  by (simp add: assign_def deref_def)

lemma Event_update_event_fields:
  "title (Event_update_event e t s en d) = (case t of None \<Rightarrow> title e | Some v \<Rightarrow> v)"
  "start_time (Event_update_event e t s en d)
     = (case s of None \<Rightarrow> start_time e | Some v \<Rightarrow> v)"
  "end_time (Event_update_event e t s en d) = (case en of None \<Rightarrow> end_time e | Some v \<Rightarrow> v)"
  "description (Event_update_event e t s en d)
     = (case d of None \<Rightarrow> description e | Some v \<Rightarrow> v)"
  by (cases t; cases s; cases en; cases d; simp add: Event_update_event_def)+

subsection \<open>The two loops of Calendar\<close>

lemma update_loop_found:
  "fst (update_event_loop h evs t kw) \<longleftrightarrow> (\<exists>r \<in> set evs. title (deref h r) = t)"
  by (induction evs) (auto simp: matches_title_def)

lemma update_loop_false: "update_event_loop h evs t kw = (False, h') \<Longrightarrow> h' = h"
  by (induction evs) (auto simp: matches_title_def split: if_splits)

lemma update_loop_first:
  "i < length evs \<Longrightarrow> title (deref h (evs ! i)) = t \<Longrightarrow>
   \<forall>j<i. title (deref h (evs ! j)) \<noteq> t \<Longrightarrow>
   update_event_loop h evs t kw =
     (True, assign h (evs ! i)
        (Event_update_event (deref h (evs ! i))
           (kw_title kw) (kw_start_time kw) (kw_end_time kw) (kw_description kw)))"
proof (induction evs arbitrary: i)
  case Nil
  then show ?case by simp
next
  case (Cons r rs)
  show ?case
  proof (cases i)
    case 0
    with Cons.prems show ?thesis by (simp add: matches_title_def)
  next
    case (Suc i')
    from Cons.prems(3) Suc have head: "title (deref h r) \<noteq> t" by fastforce
    from Cons.prems Suc have "i' < length rs" "title (deref h (rs ! i')) = t"
      "\<forall>j<i'. title (deref h (rs ! j)) \<noteq> t" by auto
    from Cons.IH [OF this] head Suc show ?thesis by (simp add: matches_title_def)
  qed
qed

lemma remove_loop_false:
  "remove_event_loop h evs ps t = Inr (False, evs') \<Longrightarrow> evs' = evs"
  by (induction h evs ps t rule: remove_event_loop.induct) (auto split: if_splits sum.splits)

text \<open>The index that \<open>enumerate\<close> supplies is an index of the list: \<open>del\<close> cannot raise.\<close>

lemma remove_loop_no_raise:
  "n + length xs \<le> length evs \<Longrightarrow> remove_event_loop h evs (enumerate n xs) t \<noteq> Inl err"
  by (induction xs arbitrary: n) (auto simp: del_item_def)

lemma remove_loop_first:
  "i < length xs \<Longrightarrow> title (deref h (xs ! i)) = t \<Longrightarrow>
   \<forall>j<i. title (deref h (xs ! j)) \<noteq> t \<Longrightarrow> n + i < length evs \<Longrightarrow>
   remove_event_loop h evs (enumerate n xs) t
     = Inr (True, take (n + i) evs @ drop (Suc (n + i)) evs)"
proof (induction xs arbitrary: i n)
  case Nil
  then show ?case by simp
next
  case (Cons r rs)
  show ?case
  proof (cases i)
    case 0
    with Cons.prems show ?thesis by (simp add: matches_title_def del_item_def)
  next
    case (Suc i')
    from Cons.prems(3) Suc have head: "title (deref h r) \<noteq> t" by fastforce
    from Cons.prems Suc have "i' < length rs" "title (deref h (rs ! i')) = t"
      "\<forall>j<i'. title (deref h (rs ! j)) \<noteq> t" "Suc n + i' < length evs" by auto
    from Cons.IH [OF this] head Suc show ?thesis by (simp add: matches_title_def)
  qed
qed

lemma remove_event_no_raise: "remove_event h cal t \<noteq> Inl err"
  using remove_loop_no_raise [of 0 "events cal" "events cal" h t]
  by (auto simp: remove_event_def split: sum.splits)

lemma remove_event_fields:
  "remove_event h c t = Inr (ok, c') \<Longrightarrow> name c' = name c \<and> event_factory c' = event_factory c"
  by (auto simp: remove_event_def split: sum.splits)

text \<open>The guard of \<open>update_calendar_name\<close> makes its \<open>pop\<close> safe.\<close>

lemma update_calendar_name_no_raise: "update_calendar_name u a b \<noteq> Inl err"
  by (auto simp: update_calendar_name_def map_of_eq_None_iff split: option.splits)

subsection \<open>Event\<close>

text \<open>
  Claim C8. \<open>Event.update_event\<close> called with only \<open>description\<close> sets the description
  to the new value and leaves title, start time and end time as they were; and in any
  call, a field whose keyword is not provided keeps its value.
\<close>

theorem event_update_frame:
  "Event_update_event e None None None (Some d) = e\<lparr>description := d\<rparr>
   \<and> (t = None \<longrightarrow> title (Event_update_event e t s en dd) = title e)
   \<and> (s = None \<longrightarrow> start_time (Event_update_event e t s en dd) = start_time e)
   \<and> (en = None \<longrightarrow> end_time (Event_update_event e t s en dd) = end_time e)
   \<and> (dd = None \<longrightarrow> description (Event_update_event e t s en dd) = description e)"
  by (simp add: Event_update_event_def split: option.splits)

theorem event_update_frame_witness:
  "Event_update_event standup None None None (Some ''daily'')
     = \<lparr>title = ''standup'', start_time = Datetime 2024 1 1 9 0,
        end_time = Datetime 2024 1 1 9 30, description = ''daily''\<rparr>
   \<and> title (Event_update_event standup None (Some (Datetime 2024 1 1 10 0)) None None) = ''standup''
   \<and> end_time (Event_update_event standup None (Some (Datetime 2024 1 1 10 0)) None None)
       = Datetime 2024 1 1 9 30"
  using event_update_frame [of standup "''daily''" None "Some (Datetime 2024 1 1 10 0)" None None]
  by (simp add: standup_def Event_init_def)

subsection \<open>Calendar\<close>

text \<open>
  Claim C3. In a calendar whose list holds two or more events with the title \<open>t\<close> (at
  positions \<open>j < k\<close>), \<open>remove_event(t)\<close> returns \<open>True\<close> and deletes exactly one position
  \<open>i\<close>: the lowest one whose event has the title. The list it leaves is the old list
  without position \<open>i\<close>, so every other event keeps its place relative to the others, and
  the later duplicate that stood at \<open>k\<close> now stands at \<open>k - 1\<close>.
\<close>

theorem remove_event_first_duplicate:
  assumes "j < k" and "k < length (events cal)"
    and "title (deref h (events cal ! j)) = t" and "title (deref h (events cal ! k)) = t"
  shows "\<exists>i. i \<le> j \<and> title (deref h (events cal ! i)) = t
           \<and> (\<forall>m<i. title (deref h (events cal ! m)) \<noteq> t)
           \<and> remove_event h cal t
               = Inr (True, cal\<lparr>events := take i (events cal) @ drop (Suc i) (events cal)\<rparr>)
           \<and> (take i (events cal) @ drop (Suc i) (events cal)) ! (k - 1) = events cal ! k"
proof -
  from assms(2,4) have "\<exists>r \<in> set (events cal). title (deref h r) = t"
    using nth_mem [of k "events cal"] by blast
  from first_index [OF this] obtain i where i:
    "i < length (events cal)" "title (deref h (events cal ! i)) = t"
    "\<forall>m<i. title (deref h (events cal ! m)) \<noteq> t" by blast
  have ij: "i \<le> j"
  proof (rule ccontr)
    assume "\<not> i \<le> j"
    then have "j < i" by simp
    with i(3) assms(3) show False by blast
  qed
  from i(1) have "0 + i < length (events cal)" by simp
  from remove_loop_first [OF i this]
  have r: "remove_event h cal t
             = Inr (True, cal\<lparr>events := take i (events cal) @ drop (Suc i) (events cal)\<rparr>)"
    by (simp add: remove_event_def)
  have len: "length (take i (events cal)) = i"
    using i(1) by simp
  from ij assms(1) have ge: "\<not> k - 1 < i" and idx: "Suc i + (k - 1 - i) = k"
    by arith+
  from assms(2) idx have "drop (Suc i) (events cal) ! (k - 1 - i) = events cal ! k"
    by simp
  with ge have "(take i (events cal) @ drop (Suc i) (events cal)) ! (k - 1) = events cal ! k"
    by (simp only: nth_append len if_False)
  with ij i r show ?thesis by blast
qed

theorem remove_event_first_duplicate_witness:
  "(1::nat) < 2 \<and> 2 < length (events work)
   \<and> title (deref heap3 (events work ! 1)) = ''standup''
   \<and> title (deref heap3 (events work ! 2)) = ''standup''
   \<and> (\<exists>i. i \<le> 1 \<and> title (deref heap3 (events work ! i)) = ''standup''
           \<and> (\<forall>m<i. title (deref heap3 (events work ! m)) \<noteq> ''standup'')
           \<and> remove_event heap3 work ''standup''
               = Inr (True, work\<lparr>events := take i (events work) @ drop (Suc i) (events work)\<rparr>)
           \<and> (take i (events work) @ drop (Suc i) (events work)) ! (2 - 1) = events work ! 2)"
proof -
  have a: "(1::nat) < 2" by simp
  have b: "2 < length (events work)" by (simp add: work_def)
  have c: "title (deref heap3 (events work ! 1)) = ''standup''"
    by (simp add: work_def heap3_def deref_def standup_def Event_init_def)
  have d: "title (deref heap3 (events work ! 2)) = ''standup''"
    by (simp add: work_def heap3_def deref_def standup2_def Event_init_def)
  from remove_event_first_duplicate [OF a b c d] a b c d show ?thesis by blast
qed

text \<open>The same call, run: of \<open>lunch, standup, standup2\<close> the first \<open>standup\<close> goes.\<close>

lemma remove_event_example:
  "remove_event heap3 work ''standup'' = Inr (True, work\<lparr>events := [0, 2]\<rparr>)"
  by (simp add: remove_event_def work_def heap3_def deref_def matches_title_def del_item_def
      standup_def lunch_def Event_init_def)

text \<open>
  Claim C9, as amended. \<open>Calendar.update_event(title, fields)\<close> returns \<open>True\<close> exactly
  when some event of the list has that very title (equality of strings, so upper and
  lower case differ). When \<open>i\<close> is the lowest position whose event has the title, the
  one \<open>Event\<close> object written is the one at position \<open>i\<close>: it receives
  \<open>Event.update_event(fields)\<close>, so each of its four fields is the keyword's value where
  one is given and its old value otherwise. Every other \<open>Event\<close> object is left as it
  was; so a later position shows its old event whenever it holds another object than
  position \<open>i\<close>, whether its title matches or not, and shows the updated event when it
  holds the same object.
\<close>

theorem calendar_update_first_match:
  "(fst (Calendar_update_event h cal t kw) \<longleftrightarrow> (\<exists>r \<in> set (events cal). title (deref h r) = t))
   \<and> (\<forall>i. i < length (events cal) \<and> title (deref h (events cal ! i)) = t
            \<and> (\<forall>j<i. title (deref h (events cal ! j)) \<noteq> t)
        \<longrightarrow> snd (Calendar_update_event h cal t kw)
              = assign h (events cal ! i)
                  (Event_update_event (deref h (events cal ! i))
                     (kw_title kw) (kw_start_time kw) (kw_end_time kw) (kw_description kw))
            \<and> title (deref (snd (Calendar_update_event h cal t kw)) (events cal ! i))
                = (case kw_title kw of None \<Rightarrow> title (deref h (events cal ! i)) | Some v \<Rightarrow> v)
            \<and> start_time (deref (snd (Calendar_update_event h cal t kw)) (events cal ! i))
                = (case kw_start_time kw of
                     None \<Rightarrow> start_time (deref h (events cal ! i)) | Some v \<Rightarrow> v)
            \<and> end_time (deref (snd (Calendar_update_event h cal t kw)) (events cal ! i))
                = (case kw_end_time kw of
                     None \<Rightarrow> end_time (deref h (events cal ! i)) | Some v \<Rightarrow> v)
            \<and> description (deref (snd (Calendar_update_event h cal t kw)) (events cal ! i))
                = (case kw_description kw of
                     None \<Rightarrow> description (deref h (events cal ! i)) | Some v \<Rightarrow> v)
            \<and> (\<forall>r. r \<noteq> events cal ! i
                  \<longrightarrow> deref (snd (Calendar_update_event h cal t kw)) r = deref h r)
            \<and> (\<forall>j. i < j \<and> j < length (events cal) \<and> events cal ! j \<noteq> events cal ! i
                  \<longrightarrow> deref (snd (Calendar_update_event h cal t kw)) (events cal ! j)
                        = deref h (events cal ! j))
            \<and> (\<forall>j. i < j \<and> j < length (events cal) \<and> events cal ! j = events cal ! i
                  \<longrightarrow> deref (snd (Calendar_update_event h cal t kw)) (events cal ! j)
                        = Event_update_event (deref h (events cal ! i))
                            (kw_title kw) (kw_start_time kw) (kw_end_time kw)
                            (kw_description kw)))"
proof (intro conjI allI impI)
  show "fst (Calendar_update_event h cal t kw) \<longleftrightarrow> (\<exists>r \<in> set (events cal). title (deref h r) = t)"
    by (simp add: Calendar_update_event_def update_loop_found)
next
  fix i
  assume "i < length (events cal) \<and> title (deref h (events cal ! i)) = t
            \<and> (\<forall>j<i. title (deref h (events cal ! j)) \<noteq> t)"
  then have "i < length (events cal)" "title (deref h (events cal ! i)) = t"
    "\<forall>j<i. title (deref h (events cal ! j)) \<noteq> t" by auto
  from update_loop_first [OF this, of kw]
  have eq: "snd (Calendar_update_event h cal t kw)
      = assign h (events cal ! i)
          (Event_update_event (deref h (events cal ! i))
             (kw_title kw) (kw_start_time kw) (kw_end_time kw) (kw_description kw))"
    by (simp add: Calendar_update_event_def)
  then show "snd (Calendar_update_event h cal t kw)
      = assign h (events cal ! i)
          (Event_update_event (deref h (events cal ! i))
             (kw_title kw) (kw_start_time kw) (kw_end_time kw) (kw_description kw))" .
  show "title (deref (snd (Calendar_update_event h cal t kw)) (events cal ! i))
          = (case kw_title kw of None \<Rightarrow> title (deref h (events cal ! i)) | Some v \<Rightarrow> v)"
    by (simp add: eq deref_assign Event_update_event_fields)
  show "start_time (deref (snd (Calendar_update_event h cal t kw)) (events cal ! i))
          = (case kw_start_time kw of
               None \<Rightarrow> start_time (deref h (events cal ! i)) | Some v \<Rightarrow> v)"
    by (simp add: eq deref_assign Event_update_event_fields)
  show "end_time (deref (snd (Calendar_update_event h cal t kw)) (events cal ! i))
          = (case kw_end_time kw of
               None \<Rightarrow> end_time (deref h (events cal ! i)) | Some v \<Rightarrow> v)"
    by (simp add: eq deref_assign Event_update_event_fields)
  show "description (deref (snd (Calendar_update_event h cal t kw)) (events cal ! i))
          = (case kw_description kw of
               None \<Rightarrow> description (deref h (events cal ! i)) | Some v \<Rightarrow> v)"
    by (simp add: eq deref_assign Event_update_event_fields)
  { fix r assume "r \<noteq> events cal ! i"
    then show "deref (snd (Calendar_update_event h cal t kw)) r = deref h r"
      by (simp add: eq deref_assign) }
  { fix j assume "i < j \<and> j < length (events cal) \<and> events cal ! j \<noteq> events cal ! i"
    then show "deref (snd (Calendar_update_event h cal t kw)) (events cal ! j)
                        = deref h (events cal ! j)"
      by (simp add: eq deref_assign) }
  { fix j assume "i < j \<and> j < length (events cal) \<and> events cal ! j = events cal ! i"
    then show "deref (snd (Calendar_update_event h cal t kw)) (events cal ! j)
                 = Event_update_event (deref h (events cal ! i))
                     (kw_title kw) (kw_start_time kw) (kw_end_time kw) (kw_description kw)"
      by (simp add: eq deref_assign) }
qed

text \<open>
  On \<open>lunch, standup, standup2\<close>, an update of \<open>standup\<close> with all four fields writes
  the four fields of the first \<open>standup\<close> and leaves \<open>lunch\<close> and \<open>standup2\<close> alone; an
  update of \<open>Standup\<close> finds nothing.
\<close>

theorem calendar_update_first_match_witness:
  "fst (Calendar_update_event heap3 work ''standup'' all_fields)
   \<and> \<not> fst (Calendar_update_event heap3 work ''Standup'' all_fields)
   \<and> deref (snd (Calendar_update_event heap3 work ''standup'' all_fields)) 1
       = \<lparr>title = ''sync'', start_time = Datetime 2024 1 3 10 0,
          end_time = Datetime 2024 1 3 10 30, description = ''moved''\<rparr>
   \<and> deref (snd (Calendar_update_event heap3 work ''standup'' all_fields)) 0 = lunch
   \<and> deref (snd (Calendar_update_event heap3 work ''standup'' all_fields)) 2 = standup2"
proof -
  have pre: "1 < length (events work) \<and> title (deref heap3 (events work ! 1)) = ''standup''
            \<and> (\<forall>j<1. title (deref heap3 (events work ! j)) \<noteq> ''standup'')"
    by (simp add: work_def heap3_def deref_def standup_def lunch_def Event_init_def)
  have ex: "\<exists>r \<in> set (events work). title (deref heap3 r) = ''standup''"
    by (simp add: work_def heap3_def deref_def standup_def lunch_def Event_init_def)
  have no: "\<not> (\<exists>r \<in> set (events work). title (deref heap3 r) = ''Standup'')"
    by (simp add: work_def heap3_def deref_def standup_def standup2_def lunch_def Event_init_def)
  note inst = calendar_update_first_match [of heap3 work _ all_fields]
  from inst [of "''standup''"] ex
  have a: "fst (Calendar_update_event heap3 work ''standup'' all_fields)"
    by blast
  from inst [of "''Standup''"] no
  have b: "\<not> fst (Calendar_update_event heap3 work ''Standup'' all_fields)"
    by blast
  note at1 = inst [of "''standup''", THEN conjunct2, THEN spec, THEN mp, OF pre]
  from at1
  have c: "snd (Calendar_update_event heap3 work ''standup'' all_fields)
             = assign heap3 (events work ! 1)
                 (Event_update_event (deref heap3 (events work ! 1))
                    (kw_title all_fields) (kw_start_time all_fields)
                    (kw_end_time all_fields) (kw_description all_fields))"
    by (rule conjunct1)
  have d: "deref (snd (Calendar_update_event heap3 work ''standup'' all_fields)) 1
       = \<lparr>title = ''sync'', start_time = Datetime 2024 1 3 10 0,
          end_time = Datetime 2024 1 3 10 30, description = ''moved''\<rparr>"
    unfolding c
    by (simp add: work_def heap3_def deref_def assign_def all_fields_def
        Event_update_event_def standup_def Event_init_def)
  have e: "deref (snd (Calendar_update_event heap3 work ''standup'' all_fields)) 0 = lunch"
    unfolding c
    by (simp add: work_def heap3_def deref_def assign_def)
  have f: "deref (snd (Calendar_update_event heap3 work ''standup'' all_fields)) 2 = standup2"
    unfolding c
    by (simp add: work_def heap3_def deref_def assign_def)
  from a b d e f show ?thesis by (intro conjI)
qed

text \<open>
  Claim C9, as first stated, also promised that every later position with a matching
  title shows an unchanged event. A caller that passes one \<open>Event\<close> object to
  \<open>add_event\<close> twice has one event at two positions of the list: both positions match
  the title, the update goes to the object through position 0, and position 1, a later
  match, shows the changed event.
\<close>

theorem calendar_update_later_match_counterexample:
  "events (add_event (add_event (Calendar_init ''work'' None) 1) 1) = [1, 1]
   \<and> matches_title (deref heap3 ([1, 1] ! 0)) ''standup''
   \<and> matches_title (deref heap3 ([1, 1] ! Suc 0)) ''standup''
   \<and> fst (Calendar_update_event heap3
             (add_event (add_event (Calendar_init ''work'' None) 1) 1) ''standup''
             (only_description ''moved''))
   \<and> deref (snd (Calendar_update_event heap3
                   (add_event (add_event (Calendar_init ''work'' None) 1) 1) ''standup''
                   (only_description ''moved''))) ([1, 1] ! Suc 0)
       = standup\<lparr>description := ''moved''\<rparr>
   \<and> deref (snd (Calendar_update_event heap3
                   (add_event (add_event (Calendar_init ''work'' None) 1) 1) ''standup''
                   (only_description ''moved''))) ([1, 1] ! Suc 0)
       \<noteq> deref heap3 ([1, 1] ! Suc 0)"
proof -
  have ev: "events (add_event (add_event (Calendar_init ''work'' None) 1) 1) = [1, 1]"
    by (simp add: add_event_def Calendar_init_def)
  have m0: "matches_title (deref heap3 ([1, 1] ! 0)) ''standup''"
    by (simp add: matches_title_def heap3_def deref_def standup_def Event_init_def)
  have m1: "matches_title (deref heap3 ([1, 1] ! Suc 0)) ''standup''"
    by (simp add: matches_title_def heap3_def deref_def standup_def Event_init_def)
  have d1: "deref heap3 (Suc 0) = standup"
    by (simp add: heap3_def deref_def)
  have ts: "title standup = ''standup''"
    by (simp add: standup_def Event_init_def)
  have run: "Calendar_update_event heap3
               (add_event (add_event (Calendar_init ''work'' None) 1) 1) ''standup''
               (only_description ''moved'')
             = (True, assign heap3 1 (standup\<lparr>description := ''moved''\<rparr>))"
    by (simp add: Calendar_update_event_def add_event_def Calendar_init_def d1 ts
        matches_title_def only_description_def Event_update_event_def)
  have old: "deref heap3 ([1, 1] ! Suc 0) = standup"
    by (simp add: d1)
  have new: "deref (snd (Calendar_update_event heap3
                   (add_event (add_event (Calendar_init ''work'' None) 1) 1) ''standup''
                   (only_description ''moved''))) ([1, 1] ! Suc 0)
       = standup\<lparr>description := ''moved''\<rparr>"
    unfolding run by (simp add: deref_assign)
  have diff: "standup\<lparr>description := ''moved''\<rparr> \<noteq> standup"
  proof
    assume "standup\<lparr>description := ''moved''\<rparr> = standup"
    then have "description (standup\<lparr>description := ''moved''\<rparr>) = description standup"
      by simp
    then show False by (simp add: standup_def Event_init_def)
  qed
  from old new diff have changed: "deref (snd (Calendar_update_event heap3
                   (add_event (add_event (Calendar_init ''work'' None) 1) 1) ''standup''
                   (only_description ''moved''))) ([1, 1] ! Suc 0)
       \<noteq> deref heap3 ([1, 1] ! Suc 0)"
    by simp
  have found: "fst (Calendar_update_event heap3
             (add_event (add_event (Calendar_init ''work'' None) 1) 1) ''standup''
             (only_description ''moved''))"
    unfolding run by simp
  from ev m0 m1 found new changed show ?thesis by (intro conjI)
qed

text \<open>
  Claim C10. When the calendar holds an event with the given title, \<open>update_event(title)\<close>
  with no field at all returns \<open>True\<close> and leaves the heap, hence every event, the
  matched one included, as it was (the list of the calendar is never written by this
  method): \<open>True\<close> says that a match was found, not that anything changed.
\<close>

theorem update_no_fields_noop:
  assumes "\<exists>r \<in> set (events cal). title (deref h r) = t"
  shows "Calendar_update_event h cal t
           \<lparr>kw_title = None, kw_start_time = None, kw_end_time = None, kw_description = None\<rparr>
         = (True, h)"
proof -
  from first_index [OF assms] obtain i where
    "i < length (events cal)" "title (deref h (events cal ! i)) = t"
    "\<forall>j<i. title (deref h (events cal ! j)) \<noteq> t" by blast
  from update_loop_first [OF this] show ?thesis
    by (simp add: Calendar_update_event_def Event_update_event_def assign_deref_same)
qed

theorem update_no_fields_noop_witness:
  "(\<exists>r \<in> set (events work). title (deref heap3 r) = ''standup'')
   \<and> Calendar_update_event heap3 work ''standup''
        \<lparr>kw_title = None, kw_start_time = None, kw_end_time = None, kw_description = None\<rparr>
      = (True, heap3)"
proof -
  have a: "\<exists>r \<in> set (events work). title (deref heap3 r) = ''standup''"
    by (simp add: work_def heap3_def deref_def standup_def standup2_def lunch_def Event_init_def)
  show ?thesis using a update_no_fields_noop [OF a] by simp
qed

subsection \<open>User\<close>

text \<open>
  Claim C4. \<open>update_calendar_name(old, new)\<close> with \<open>old == new\<close> returns \<open>False\<close> for
  every user, whether or not a calendar of that name exists (and the user is left as it
  was): either the name is absent, or it is present and therefore taken.
\<close>

theorem rename_same_name_fails: "update_calendar_name u n n = Inr (False, u)"
  by (simp add: update_calendar_name_def)

theorem rename_same_name_fails_witness:
  "update_calendar_name alice ''work'' ''work'' = Inr (False, alice)
   \<and> update_calendar_name alice ''home'' ''home'' = Inr (False, alice)"
  using rename_same_name_fails [of alice "''work''"] rename_same_name_fails [of alice "''home''"]
  by simp

text \<open>
  Claim C7. After \<open>remove_calendar(name)\<close> has returned \<open>True\<close>, \<open>create_calendar(name)\<close>
  returns \<open>True\<close>, and the calendar then stored under \<open>name\<close> is the one the constructor
  builds: it carries that name and its list of events is empty.
\<close>

theorem recreate_calendar_fresh:
  assumes "remove_calendar u n = (True, u1)"
  shows "\<exists>u2 c. create_calendar u1 n = (True, u2)
           \<and> map_of (calendars u2) n = Some c
           \<and> c = Calendar_init n None \<and> name c = n \<and> events c = []"
proof -
  from assms have u1: "calendars u1 = AList.delete n (calendars u)"
    by (auto simp: remove_calendar_def)
  have "n \<notin> fst ` set (calendars u1)"
    unfolding u1 by (rule AList.delete_notin_dom)
  then show ?thesis
    by (simp add: create_calendar_def factory_create_calendar_def AList.update_conv'
        Calendar_init_def)
qed

theorem recreate_calendar_fresh_witness:
  "remove_calendar alice ''work'' = (True, \<lparr>username = ''alice'', calendars = []\<rparr>)
   \<and> (\<exists>u2 c. create_calendar \<lparr>username = ''alice'', calendars = []\<rparr> ''work'' = (True, u2)
           \<and> map_of (calendars u2) ''work'' = Some c
           \<and> c = Calendar_init ''work'' None \<and> name c = ''work'' \<and> events c = [])"
proof -
  have a: "remove_calendar alice ''work'' = (True, \<lparr>username = ''alice'', calendars = []\<rparr>)"
    by (simp add: remove_calendar_def alice_def)
  show ?thesis using a recreate_calendar_fresh [OF a] by simp
qed

text \<open>How the dictionary operations act on the two invariants.\<close>

lemma names_update:
  "names_consistent u \<Longrightarrow> name c = k \<Longrightarrow>
   names_consistent (u\<lparr>calendars := AList.update k c (calendars u)\<rparr>)"
  using set_update_subset [of k c "calendars u"] by (auto simp: names_consistent_def)

lemma names_delete:
  "names_consistent u \<Longrightarrow> names_consistent (u\<lparr>calendars := AList.delete k (calendars u)\<rparr>)"
  using set_delete_subset [of k "calendars u"] by (auto simp: names_consistent_def)

lemma ok_update:
  "calendars_ok u \<Longrightarrow> name c = k \<Longrightarrow> event_factory c = DefaultEventFactory \<Longrightarrow>
   calendars_ok (u\<lparr>calendars := AList.update k c (calendars u)\<rparr>)"
  using set_update_subset [of k c "calendars u"] by (auto simp: calendars_ok_def)

lemma ok_delete:
  "calendars_ok u \<Longrightarrow> calendars_ok (u\<lparr>calendars := AList.delete k (calendars u)\<rparr>)"
  using set_delete_subset [of k "calendars u"] by (auto simp: calendars_ok_def)

lemma ok_lookup:
  "calendars_ok u \<Longrightarrow> map_of (calendars u) k = Some c \<Longrightarrow>
   name c = k \<and> event_factory c = DefaultEventFactory"
  by (auto simp: calendars_ok_def dest: map_of_SomeD)

lemma ok_create_calendar: "calendars_ok u \<Longrightarrow> calendars_ok (snd (create_calendar u n))"
  by (simp add: create_calendar_def factory_create_calendar_def Calendar_init_def ok_update)

lemma ok_remove_calendar: "calendars_ok u \<Longrightarrow> calendars_ok (snd (remove_calendar u n))"
  by (simp add: remove_calendar_def ok_delete)

lemma ok_update_calendar_name:
  assumes "calendars_ok u"
  shows "\<exists>ok u'. update_calendar_name u a b = Inr (ok, u') \<and> calendars_ok u'"
proof (cases "a \<notin> fst ` set (calendars u) \<or> b \<in> fst ` set (calendars u)")
  case True
  with assms show ?thesis by (auto simp: update_calendar_name_def)
next
  case False
  then have "map_of (calendars u) a \<noteq> None"
    by (simp add: map_of_eq_None_iff)
  then obtain cal where cal: "map_of (calendars u) a = Some cal" by blast
  from ok_lookup [OF assms cal] have f: "event_factory (cal\<lparr>name := b\<rparr>) = DefaultEventFactory"
    by simp
  have "calendars_ok (u\<lparr>calendars := AList.delete a (calendars u)\<rparr>)"
    using assms by (rule ok_delete)
  from ok_update [OF this _ f, of b] have "calendars_ok (u\<lparr>calendars :=
      AList.update b (cal\<lparr>name := b\<rparr>) (AList.delete a (calendars u))\<rparr>)"
    by simp
  with False cal show ?thesis by (auto simp: update_calendar_name_def)
qed

lemma ok_user_step:
  assumes "calendars_ok u"
  shows "\<exists>h' u'. user_step (h, u) c = Inr (h', u') \<and> calendars_ok u'"
proof (cases c)
  case (CreateCalendar n)
  with assms show ?thesis by (simp add: ok_create_calendar)
next
  case (RemoveCalendar n)
  with assms show ?thesis by (simp add: ok_remove_calendar)
next
  case (RenameCalendar a b)
  from ok_update_calendar_name [OF assms, of a b] RenameCalendar show ?thesis by auto
next
  case (NewEvent k t s e d)
  show ?thesis
  proof (cases "map_of (calendars u) k")
    case None
    with NewEvent assms show ?thesis by simp
  next
    case (Some cal)
    from ok_lookup [OF assms Some]
    have nf: "name (add_event cal r) = k" "event_factory (add_event cal r) = DefaultEventFactory"
      "event_factory cal = DefaultEventFactory" for r
      by (simp_all add: add_event_def)
    from ok_update [OF assms nf(1,2)] NewEvent Some nf(3) show ?thesis
      by (simp add: new_object_def)
  qed
next
  case (AddEvent k r)
  show ?thesis
  proof (cases "map_of (calendars u) k")
    case None
    with AddEvent assms show ?thesis by simp
  next
    case (Some cal)
    from ok_lookup [OF assms Some]
    have nf: "name (add_event cal r) = k" "event_factory (add_event cal r) = DefaultEventFactory"
      by (simp_all add: add_event_def)
    from ok_update [OF assms nf] AddEvent Some show ?thesis by simp
  qed
next
  case (RemoveEvent k t)
  show ?thesis
  proof (cases "map_of (calendars u) k")
    case None
    with RemoveEvent assms show ?thesis by simp
  next
    case (Some cal)
    obtain ok cal' where r: "remove_event h cal t = Inr (ok, cal')"
      using remove_event_no_raise [of h cal t] by (cases "remove_event h cal t") auto
    from remove_event_fields [OF r] ok_lookup [OF assms Some]
    have "name cal' = k" "event_factory cal' = DefaultEventFactory" by simp_all
    from ok_update [OF assms this] RemoveEvent Some r show ?thesis by simp
  qed
next
  case (UpdateEvent k t kw)
  with assms show ?thesis by (cases "map_of (calendars u) k") simp_all
qed

lemma ok_user_exec:
  "calendars_ok u \<Longrightarrow> \<exists>h' u'. user_exec (h, u) cs = Inr (h', u') \<and> calendars_ok u'"
proof (induction cs arbitrary: h u)
  case Nil
  then show ?case by simp
next
  case (Cons c cs)
  from ok_user_step [OF Cons.prems, of h c] obtain h1 u1 where
    s: "user_step (h, u) c = Inr (h1, u1)" and i: "calendars_ok u1" by blast
  from Cons.IH [OF i, of h1] s show ?case by simp
qed

text \<open>
  Claim C5. In every state of a user that calls of the methods can reach from a new
  \<open>User\<close> (creating, removing and renaming calendars, adding, removing and updating
  events of its calendars, in any order and number), each calendar stored under a key
  \<open>k\<close> carries the name \<open>k\<close>; no call of such a sequence raises. In particular, from
  any user with consistent names, \<open>create_calendar\<close> leaves the names consistent, and so
  does a successful \<open>update_calendar_name\<close>, after which the calendar under the new key
  carries the new name.
\<close>

theorem calendar_names_consistent:
  "(\<exists>h' u. user_exec (h, User_init n) cs = Inr (h', u) \<and> names_consistent u
       \<and> (\<forall>k c. map_of (calendars u) k = Some c \<longrightarrow> name c = k))
   \<and> (names_consistent v \<longrightarrow> names_consistent (snd (create_calendar v m)))
   \<and> (names_consistent v \<and> update_calendar_name v a b = Inr (True, v')
        \<longrightarrow> names_consistent v' \<and> (\<exists>c. map_of (calendars v') b = Some c \<and> name c = b))"
proof (intro conjI impI)
  have "calendars_ok (User_init n)" by (simp add: calendars_ok_def User_init_def)
  from ok_user_exec [OF this, of h cs] obtain h' u where
    e: "user_exec (h, User_init n) cs = Inr (h', u)" and i: "calendars_ok u" by blast
  from i have "names_consistent u" by (auto simp: calendars_ok_def names_consistent_def)
  moreover from i have "\<forall>k c. map_of (calendars u) k = Some c \<longrightarrow> name c = k"
    by (auto dest: ok_lookup)
  ultimately show "\<exists>h' u. user_exec (h, User_init n) cs = Inr (h', u) \<and> names_consistent u
       \<and> (\<forall>k c. map_of (calendars u) k = Some c \<longrightarrow> name c = k)"
    using e by blast
next
  assume "names_consistent v"
  then show "names_consistent (snd (create_calendar v m))"
    by (simp add: create_calendar_def factory_create_calendar_def Calendar_init_def names_update)
next
  assume a: "names_consistent v \<and> update_calendar_name v a b = Inr (True, v')"
  then obtain cal where v': "v' = v\<lparr>calendars :=
      AList.update b (cal\<lparr>name := b\<rparr>) (AList.delete a (calendars v))\<rparr>"
    by (auto simp: update_calendar_name_def split: if_splits option.splits)
  from a have "names_consistent (v\<lparr>calendars := AList.delete a (calendars v)\<rparr>)"
    by (simp add: names_delete)
  from names_update [OF this, of "cal\<lparr>name := b\<rparr>" b]
  show "names_consistent v'" by (simp add: v')
  show "\<exists>c. map_of (calendars v') b = Some c \<and> name c = b"
    by (simp add: v' AList.update_conv')
qed

theorem calendar_names_consistent_witness:
  "user_exec (heap3, User_init ''alice'')
     [CreateCalendar ''work'', AddEvent ''work'' 1, RenameCalendar ''work'' ''personal'',
      CreateCalendar ''work'']
     = Inr (heap3,
            \<lparr>username = ''alice'',
             calendars =
               [(''personal'',
                 \<lparr>name = ''personal'', events = [1], event_factory = DefaultEventFactory\<rparr>),
                (''work'',
                 \<lparr>name = ''work'', events = [], event_factory = DefaultEventFactory\<rparr>)]\<rparr>)
   \<and> names_consistent
        \<lparr>username = ''alice'',
         calendars =
           [(''personal'',
             \<lparr>name = ''personal'', events = [1], event_factory = DefaultEventFactory\<rparr>),
            (''work'',
             \<lparr>name = ''work'', events = [], event_factory = DefaultEventFactory\<rparr>)]\<rparr>"
proof -
  let ?cs = "[CreateCalendar ''work'', AddEvent ''work'' 1, RenameCalendar ''work'' ''personal'',
      CreateCalendar ''work'']"
  have e: "user_exec (heap3, User_init ''alice'') ?cs
     = Inr (heap3,
            \<lparr>username = ''alice'',
             calendars =
               [(''personal'',
                 \<lparr>name = ''personal'', events = [1], event_factory = DefaultEventFactory\<rparr>),
                (''work'',
                 \<lparr>name = ''work'', events = [], event_factory = DefaultEventFactory\<rparr>)]\<rparr>)"
    by (simp add: User_init_def create_calendar_def factory_create_calendar_def
        Calendar_init_def add_event_def update_calendar_name_def)
  from calendar_names_consistent [of heap3 "''alice''" ?cs] obtain h' u where
    "user_exec (heap3, User_init ''alice'') ?cs = Inr (h', u)" "names_consistent u"
    by blast
  with e show ?thesis by simp
qed

subsection \<open>CalendarsApp\<close>

text \<open>
  Claim C6. From any directory, when \<open>create_user(name)\<close> is called twice in a row with
  the same name, the second call returns \<open>False\<close> and leaves the directory, and so the
  number of users, as the first call left it.
\<close>

theorem create_user_twice:
  assumes "create_user app n = (ok1, app1)" and "create_user app1 n = (ok2, app2)"
  shows "\<not> ok2 \<and> app2 = app1 \<and> length (list_users app2) = length (list_users app1)"
proof -
  from assms(1) have "n \<in> fst ` set (users app1)"
    by (auto simp: create_user_def AList.dom_update split: if_splits)
  with assms(2) show ?thesis
    by (simp add: create_user_def)
qed

theorem create_user_twice_witness:
  "create_user CalendarsApp_init ''alice'' = (True, \<lparr>users = [(''alice'', User_init ''alice'')]\<rparr>)
   \<and> create_user \<lparr>users = [(''alice'', User_init ''alice'')]\<rparr> ''alice''
       = (False, \<lparr>users = [(''alice'', User_init ''alice'')]\<rparr>)
   \<and> length (list_users \<lparr>users = [(''alice'', User_init ''alice'')]\<rparr>) = 1"
proof -
  have a: "create_user CalendarsApp_init ''alice''
             = (True, \<lparr>users = [(''alice'', User_init ''alice'')]\<rparr>)"
    by (simp add: create_user_def CalendarsApp_init_def)
  have b: "create_user \<lparr>users = [(''alice'', User_init ''alice'')]\<rparr> ''alice''
             = (False, \<lparr>users = [(''alice'', User_init ''alice'')]\<rparr>)"
    by (simp add: create_user_def)
  show ?thesis using a b create_user_twice [OF a b] by (simp add: list_users_def)
qed

text \<open>What one call does to the set of keys, to its own result, and to a lookup.\<close>

lemma keys_app_step:
  "fst ` set (users (snd (app_step app c)))
     = (case c of CreateUser m \<Rightarrow> insert m (fst ` set (users app))
                | DeleteUser m \<Rightarrow> fst ` set (users app) - {m})"
proof (cases c)
  case (CreateUser m)
  then show ?thesis by (auto simp: create_user_def AList.dom_update)
next
  case (DeleteUser m)
  have "set (map fst (AList.delete m (users app))) = set (map fst (users app)) - {m}"
    by (simp only: AList.delete_keys set_removeAll)
  with DeleteUser show ?thesis by (simp add: delete_user_def)
qed

lemma keys_app_exec:
  "fst ` set (users (app_exec app cs)) = net_names (fst ` set (users app)) cs"
proof (induction cs arbitrary: app)
  case Nil
  then show ?case by simp
next
  case (Cons c cs)
  then show ?case by (cases c) (simp_all add: keys_app_step del: app_step.simps)
qed

lemma get_user_keys: "get_user app n \<noteq> None \<longleftrightarrow> n \<in> fst ` set (users app)"
  by (simp add: get_user_def map_of_eq_None_iff)

lemma fst_app_step:
  "fst (app_step app c)
     = (case c of CreateUser m \<Rightarrow> m \<notin> fst ` set (users app)
                | DeleteUser m \<Rightarrow> m \<in> fst ` set (users app))"
  by (cases c) (simp_all add: create_user_def delete_user_def map_of_eq_None_iff)

lemma app_step_lookup:
  "get_user (snd (app_step app c)) n \<noteq> None \<longleftrightarrow>
     (if fst (app_step app c) \<and> target c = n then is_create c else get_user app n \<noteq> None)"
  unfolding get_user_keys keys_app_step fst_app_step
  by (cases c) auto

lemma effective_on_Cons:
  "effective_on n app (c # cs)
     = (if fst (app_step app c) \<and> target c = n then [c] else [])
       @ effective_on n (snd (app_step app c)) cs"
  by (simp add: effective_on_def)

lemma last_effective:
  "get_user (app_exec app cs) n \<noteq> None \<longleftrightarrow>
     (if effective_on n app cs = [] then get_user app n \<noteq> None
      else is_create (last (effective_on n app cs)))"
proof (induction cs arbitrary: app)
  case Nil
  then show ?case by (simp add: effective_on_def)
next
  case (Cons c cs)
  show ?case
  proof (cases "effective_on n (snd (app_step app c)) cs = []")
    case True
    with Cons.IH [of "snd (app_step app c)"] show ?thesis
      by (simp add: effective_on_Cons app_step_lookup del: app_step.simps not_None_eq)
  next
    case False
    with Cons.IH [of "snd (app_step app c)"] show ?thesis
      by (simp add: effective_on_Cons del: app_step.simps not_None_eq)
  qed
qed

text \<open>
  Claim C1. After any sequence of \<open>create_user\<close> and \<open>delete_user\<close> calls on a
  directory, \<open>get_user(name)\<close> returns a user exactly when the net effect of the
  sequence leaves the name inserted. The net effect is stated twice: as the set of
  names obtained by replaying the calls on the set of usernames (a creation inserts, a
  deletion removes), and as the last call on that name that returned \<open>True\<close> being a
  creation (the name's presence before the sequence deciding when no call on it took
  effect; on a new directory, some call must have taken effect).
\<close>

theorem get_user_net_effect:
  "(get_user (app_exec app cs) n \<noteq> None \<longleftrightarrow> n \<in> net_names (fst ` set (users app)) cs)
   \<and> (get_user (app_exec app cs) n \<noteq> None \<longleftrightarrow>
        (if effective_on n app cs = [] then get_user app n \<noteq> None
         else is_create (last (effective_on n app cs))))
   \<and> (get_user (app_exec CalendarsApp_init cs) n \<noteq> None \<longleftrightarrow>
        effective_on n CalendarsApp_init cs \<noteq> []
        \<and> is_create (last (effective_on n CalendarsApp_init cs)))"
proof (intro conjI)
  show "get_user (app_exec app cs) n \<noteq> None \<longleftrightarrow> n \<in> net_names (fst ` set (users app)) cs"
    by (simp only: get_user_keys keys_app_exec)
  show "get_user (app_exec app cs) n \<noteq> None \<longleftrightarrow>
        (if effective_on n app cs = [] then get_user app n \<noteq> None
         else is_create (last (effective_on n app cs)))"
    by (rule last_effective)
  have "get_user CalendarsApp_init n = None"
    by (simp add: get_user_def CalendarsApp_init_def)
  with last_effective [of CalendarsApp_init cs n]
  show "get_user (app_exec CalendarsApp_init cs) n \<noteq> None \<longleftrightarrow>
        effective_on n CalendarsApp_init cs \<noteq> []
        \<and> is_create (last (effective_on n CalendarsApp_init cs))"
    by (simp split: if_splits)
qed

theorem get_user_net_effect_witness:
  "get_user (app_exec CalendarsApp_init
       [CreateUser ''alice'', CreateUser ''alice'', DeleteUser ''bob'', CreateUser ''bob'',
        DeleteUser ''bob'']) ''alice'' \<noteq> None
   \<and> get_user (app_exec CalendarsApp_init
       [CreateUser ''alice'', CreateUser ''alice'', DeleteUser ''bob'', CreateUser ''bob'',
        DeleteUser ''bob'']) ''bob'' = None
   \<and> app_results CalendarsApp_init
       [CreateUser ''alice'', CreateUser ''alice'', DeleteUser ''bob'', CreateUser ''bob'',
        DeleteUser ''bob''] = [True, False, False, True, True]"
proof -
  let ?cs = "[CreateUser ''alice'', CreateUser ''alice'', DeleteUser ''bob'', CreateUser ''bob'',
        DeleteUser ''bob'']"
  have k: "fst ` set (users CalendarsApp_init) = {}"
    by (simp add: CalendarsApp_init_def)
  have a: "''alice'' \<in> net_names (fst ` set (users CalendarsApp_init)) ?cs"
    unfolding k by simp
  have b: "''bob'' \<notin> net_names (fst ` set (users CalendarsApp_init)) ?cs"
    unfolding k by simp
  have r: "app_results CalendarsApp_init ?cs = [True, False, False, True, True]"
    by (simp add: CalendarsApp_init_def create_user_def delete_user_def)
  from get_user_net_effect [of CalendarsApp_init ?cs "''alice''"] a
  have 1: "get_user (app_exec CalendarsApp_init ?cs) ''alice'' \<noteq> None" by blast
  from get_user_net_effect [of CalendarsApp_init ?cs "''bob''"] b
  have 2: "get_user (app_exec CalendarsApp_init ?cs) ''bob'' = None" by blast
  from 1 2 r show ?thesis by blast
qed

subsection \<open>Calls that return False\<close>

text \<open>
  Claim C2. Each of the seven mutating operations, when it returns \<open>False\<close>, hands back
  the state it was given: the directory for \<open>create_user\<close> and \<open>delete_user\<close>, the user
  for \<open>create_calendar\<close>, \<open>remove_calendar\<close> and \<open>update_calendar_name\<close>, the calendar
  for \<open>remove_event\<close> (which never writes the heap) and the heap for
  \<open>Calendar.update_event\<close> (which never writes the calendar). A method can write
  nothing but the state it is given, so the rest of the directory is untouched as well;
  for the two event operations this is spelled out one level up, for the user that owns
  the calendar. Neither \<open>update_calendar_name\<close> nor \<open>remove_event\<close> ever raises.
\<close>

theorem failed_call_changes_nothing:
  "(create_user app n = (False, app') \<longrightarrow> app' = app)
   \<and> (delete_user app n = (False, app') \<longrightarrow> app' = app)
   \<and> (create_calendar u k = (False, u') \<longrightarrow> u' = u)
   \<and> (remove_calendar u k = (False, u') \<longrightarrow> u' = u)
   \<and> (update_calendar_name u old_name new_name = Inr (False, u') \<longrightarrow> u' = u)
   \<and> (remove_event h cal t = Inr (False, cal') \<longrightarrow> cal' = cal)
   \<and> (Calendar_update_event h cal t kw = (False, h') \<longrightarrow> h' = h)
   \<and> (map_of (calendars u) k = Some cal \<and> remove_event h cal t = Inr (False, cal')
        \<longrightarrow> user_step (h, u) (RemoveEvent k t) = Inr (h, u))
   \<and> (map_of (calendars u) k = Some cal \<and> Calendar_update_event h cal t kw = (False, h')
        \<longrightarrow> user_step (h, u) (UpdateEvent k t kw) = Inr (h, u))
   \<and> update_calendar_name u old_name new_name \<noteq> Inl err
   \<and> remove_event h cal t \<noteq> Inl err"
proof (intro conjI impI)
  show "create_user app n = (False, app') \<Longrightarrow> app' = app"
    by (auto simp: create_user_def split: if_splits)
  show "delete_user app n = (False, app') \<Longrightarrow> app' = app"
    by (auto simp: delete_user_def map_of_eq_None_iff)
  show "create_calendar u k = (False, u') \<Longrightarrow> u' = u"
    by (auto simp: create_calendar_def Let_def split: if_splits)
  show "remove_calendar u k = (False, u') \<Longrightarrow> u' = u"
    by (auto simp: remove_calendar_def map_of_eq_None_iff)
  show "update_calendar_name u old_name new_name = Inr (False, u') \<Longrightarrow> u' = u"
    by (auto simp: update_calendar_name_def split: if_splits option.splits)
  show c: "remove_event h cal t = Inr (False, cal') \<Longrightarrow> cal' = cal"
    by (auto simp: remove_event_def split: sum.splits dest: remove_loop_false)
  show d: "Calendar_update_event h cal t kw = (False, h') \<Longrightarrow> h' = h"
    by (auto simp: Calendar_update_event_def dest: update_loop_false)
  show "map_of (calendars u) k = Some cal \<and> remove_event h cal t = Inr (False, cal')
          \<Longrightarrow> user_step (h, u) (RemoveEvent k t) = Inr (h, u)"
    using c by (auto simp: AList.update_triv)
  show "map_of (calendars u) k = Some cal \<and> Calendar_update_event h cal t kw = (False, h')
          \<Longrightarrow> user_step (h, u) (UpdateEvent k t kw) = Inr (h, u)"
    using d by auto
  show "update_calendar_name u old_name new_name \<noteq> Inl err"
    by (rule update_calendar_name_no_raise)
  show "remove_event h cal t \<noteq> Inl err"
    by (rule remove_event_no_raise)
qed

theorem failed_call_changes_nothing_witness:
  "create_user \<lparr>users = [(''alice'', alice)]\<rparr> ''alice'' = (False, \<lparr>users = [(''alice'', alice)]\<rparr>)
   \<and> delete_user \<lparr>users = [(''alice'', alice)]\<rparr> ''bob'' = (False, \<lparr>users = [(''alice'', alice)]\<rparr>)
   \<and> create_calendar alice ''work'' = (False, alice)
   \<and> remove_calendar alice ''home'' = (False, alice)
   \<and> update_calendar_name alice ''home'' ''work'' = Inr (False, alice)
   \<and> remove_event heap3 work ''dinner'' = Inr (False, work)
   \<and> Calendar_update_event heap3 work ''dinner'' (only_description ''late'') = (False, heap3)
   \<and> user_step (heap3, alice) (RemoveEvent ''work'' ''dinner'') = Inr (heap3, alice)
   \<and> user_step (heap3, alice) (UpdateEvent ''work'' ''dinner'' (only_description ''late''))
       = Inr (heap3, alice)"
proof -
  let ?app = "\<lparr>users = [(''alice'', alice)]\<rparr>"
  let ?kw = "only_description ''late''"
  note c1 = failed_call_changes_nothing [THEN conjunct1, rule_format]
  note r1 = failed_call_changes_nothing [THEN conjunct2]
  note c2 = r1 [THEN conjunct1, rule_format]
  note r2 = r1 [THEN conjunct2]
  note c3 = r2 [THEN conjunct1, rule_format]
  note r3 = r2 [THEN conjunct2]
  note c4 = r3 [THEN conjunct1, rule_format]
  note r4 = r3 [THEN conjunct2]
  note c5 = r4 [THEN conjunct1, rule_format]
  note r5 = r4 [THEN conjunct2]
  note c6 = r5 [THEN conjunct1, rule_format]
  note r6 = r5 [THEN conjunct2]
  note c7 = r6 [THEN conjunct1, rule_format]
  note r7 = r6 [THEN conjunct2]
  note c8 = r7 [THEN conjunct1, rule_format]
  note r8 = r7 [THEN conjunct2]
  note c9 = r8 [THEN conjunct1, rule_format]
  have "\<exists>a. create_user ?app ''alice'' = (False, a)"
    by (simp add: create_user_def)
  then obtain a1 where e1: "create_user ?app ''alice'' = (False, a1)" by blast
  from c1 [OF e1] e1 have 1: "create_user ?app ''alice'' = (False, ?app)" by simp
  have "\<exists>a. delete_user ?app ''bob'' = (False, a)"
    by (simp add: delete_user_def)
  then obtain a2 where e2: "delete_user ?app ''bob'' = (False, a2)" by blast
  from c2 [OF e2] e2 have 2: "delete_user ?app ''bob'' = (False, ?app)" by simp
  have "\<exists>a. create_calendar alice ''work'' = (False, a)"
    by (simp add: create_calendar_def alice_def)
  then obtain a3 where e3: "create_calendar alice ''work'' = (False, a3)" by blast
  from c3 [OF e3] e3 have 3: "create_calendar alice ''work'' = (False, alice)" by simp
  have "\<exists>a. remove_calendar alice ''home'' = (False, a)"
    by (simp add: remove_calendar_def alice_def)
  then obtain a4 where e4: "remove_calendar alice ''home'' = (False, a4)" by blast
  from c4 [OF e4] e4 have 4: "remove_calendar alice ''home'' = (False, alice)" by simp
  have "\<exists>a. update_calendar_name alice ''home'' ''work'' = Inr (False, a)"
    by (simp add: update_calendar_name_def alice_def)
  then obtain a5 where e5: "update_calendar_name alice ''home'' ''work'' = Inr (False, a5)"
    by blast
  from c5 [OF e5] e5 have 5: "update_calendar_name alice ''home'' ''work'' = Inr (False, alice)"
    by simp
  have "\<exists>a. remove_event heap3 work ''dinner'' = Inr (False, a)"
    by (simp add: remove_event_def work_def heap3_def deref_def matches_title_def
        standup_def standup2_def lunch_def Event_init_def)
  then obtain a6 where e6: "remove_event heap3 work ''dinner'' = Inr (False, a6)" by blast
  from c6 [OF e6] e6 have 6: "remove_event heap3 work ''dinner'' = Inr (False, work)" by simp
  have "\<exists>a. Calendar_update_event heap3 work ''dinner'' ?kw = (False, a)"
    by (simp add: Calendar_update_event_def work_def heap3_def deref_def matches_title_def
        standup_def standup2_def lunch_def Event_init_def)
  then obtain a7 where e7: "Calendar_update_event heap3 work ''dinner'' ?kw = (False, a7)"
    by blast
  from c7 [OF e7] e7 have 7: "Calendar_update_event heap3 work ''dinner'' ?kw = (False, heap3)"
    by simp
  have look: "map_of (calendars alice) ''work'' = Some work"
    by (simp add: alice_def)
  from look 6 have "map_of (calendars alice) ''work'' = Some work
      \<and> remove_event heap3 work ''dinner'' = Inr (False, work)" by (rule conjI)
  from c8 [OF this]
  have 8: "user_step (heap3, alice) (RemoveEvent ''work'' ''dinner'') = Inr (heap3, alice)" .
  from look 7 have "map_of (calendars alice) ''work'' = Some work
      \<and> Calendar_update_event heap3 work ''dinner'' ?kw = (False, heap3)" by (rule conjI)
  from c9 [OF this]
  have 9: "user_step (heap3, alice) (UpdateEvent ''work'' ''dinner'' ?kw) = Inr (heap3, alice)" .
  from 1 2 3 4 5 6 7 8 9 show ?thesis by (intro conjI)
qed

end
